theory Spec2Isabelle
  imports Complex_Main "HOL-Library.AList" "HOL-Library.Multiset" "HOL-Library.Sublist"
begin

section \<open>Python building blocks\<close>

text \<open>
  Floating-point values of the dashboards (rates, prices, open interest) are modelled as
  rationals: exact arithmetic, no rounding, no infinities and no NaN.  A Python \<open>dict\<close> is an
  association list in insertion order, the order in which \<open>items()\<close> iterates; its keys are
  distinct, lookup is \<open>map_of\<close> and \<open>d[k] = v\<close> is \<open>AList.update\<close>, which keeps the
  position of a key that is already present and appends a new one at the end.
\<close>

type_synonym symbol = string
type_synonym 'v dict = "(symbol \<times> 'v) list"

datatype py_error = ZeroDivisionError | IndexError | RequestException

text \<open>
  \<open>sorted(xs, key=key, reverse=reverse)\<close>: a stable sort; with \<open>reverse=True\<close> CPython reverses
  the list, sorts it stably and reverses the result, so equal keys keep their original order
  in both directions.
\<close>

definition py_sorted :: "('a \<Rightarrow> 'k::linorder) \<Rightarrow> bool \<Rightarrow> 'a list \<Rightarrow> 'a list" where
  "py_sorted key reverse xs =
     (if reverse then rev (sort_key key (rev xs)) else sort_key key xs)"

text \<open>The slice \<open>xs[:n]\<close>; a negative \<open>n\<close> counts from the end.\<close>

definition py_take :: "int \<Rightarrow> 'a list \<Rightarrow> 'a list" where
  "py_take n xs = (if 0 \<le> n then take (nat n) xs else take (nat (int (length xs) + n)) xs)"

text \<open>The slice \<open>xs[i:]\<close> for a non-negative \<open>i\<close>.\<close>

definition py_from :: "nat \<Rightarrow> 'a list \<Rightarrow> 'a list" where
  "py_from i xs = drop i xs"

text \<open>Float division \<open>a / b\<close>: raises \<open>ZeroDivisionError\<close> when the divisor is zero.\<close>

definition py_truediv :: "rat \<Rightarrow> rat \<Rightarrow> py_error + rat" where
  "py_truediv a b = (if b = 0 then Inl ZeroDivisionError else Inr (a / b))"

section \<open>Funding-rate tracker (pages/ratemonitor.py)\<close>

definition get_top_n :: "rat dict \<Rightarrow> int \<Rightarrow> bool \<Rightarrow> (symbol \<times> rat) list" where
  "get_top_n rates n reverse = py_take n (py_sorted snd reverse rates)"

text \<open>One iteration of the loop of \<open>get_biggest_changes\<close> over \<open>current.items()\<close>.\<close>

definition change_step :: "rat dict \<Rightarrow> bool \<Rightarrow> symbol \<times> rat \<Rightarrow> rat dict \<Rightarrow> rat dict" where
  "change_step previous increasing item changes =
     (case map_of previous (fst item) of
        None \<Rightarrow> changes
      | Some p \<Rightarrow>
          (let change = snd item - p in
           if (increasing \<and> change > 0) \<or> (\<not> increasing \<and> change < 0)
           then AList.update (fst item) change changes
           else changes))"

definition collect_changes :: "rat dict \<Rightarrow> rat dict \<Rightarrow> bool \<Rightarrow> rat dict" where
  "collect_changes current previous increasing =
     fold (change_step previous increasing) current []"

definition get_biggest_changes ::
  "rat dict \<Rightarrow> rat dict \<Rightarrow> int \<Rightarrow> bool \<Rightarrow> (symbol \<times> rat) list" where
  "get_biggest_changes current previous n increasing =
     py_take n (py_sorted snd increasing (collect_changes current previous increasing))"


text \<open>
  What one iteration of that loop contributes when the symbol is not yet a key of
  \<open>changes\<close>: nothing, or the one new entry.
\<close>

definition change_of :: "rat dict \<Rightarrow> bool \<Rightarrow> symbol \<times> rat \<Rightarrow> (symbol \<times> rat) list" where
  "change_of previous increasing item =
     (case map_of previous (fst item) of
        None \<Rightarrow> []
      | Some p \<Rightarrow>
          (if (increasing \<and> snd item - p > 0) \<or> (\<not> increasing \<and> snd item - p < 0)
           then [(fst item, snd item - p)] else []))"

text \<open>
  \<open>get_funding_rates\<close>: the decoded body of the premium-index request is a list of
  (symbol, lastFundingRate) items, or \<open>None\<close> when the request or the decoding raised; the
  function keeps the symbols that end in USDT and returns the empty dict on any exception.
\<close>

definition get_funding_rates :: "(symbol \<times> rat) list option \<Rightarrow> rat dict" where
  "get_funding_rates response =
     (case response of
        None \<Rightarrow> []
      | Some data \<Rightarrow>
          fold (\<lambda>item funding_rates.
                  if suffix ''USDT'' (fst item)
                  then AList.update (fst item) (snd item) funding_rates
                  else funding_rates) data [])"

text \<open>The tracker object and the statistics that \<open>run_task\<close> writes to \<open>data_file\<close>.\<close>

record tracker =
  previous_rates :: "rat dict"
  current_rates :: "rat dict"

record stats =
  s_timestamp :: string
  s_highest_rates :: "(symbol \<times> rat) list"
  s_lowest_rates :: "(symbol \<times> rat) list"
  s_biggest_increases :: "(symbol \<times> rat) list"
  s_biggest_decreases :: "(symbol \<times> rat) list"
  s_previous_rates :: "rat dict"

text \<open>
  The data file holds a snapshot or nothing readable (\<open>None\<close>).  The \<open>try\<close> around
  \<open>open\<close> and \<open>json.dump\<close> either completes, or catches an exception and goes on; in that
  case the file is left as the operating system has it, which the outcome carries.
\<close>

datatype write_outcome = Written | WriteFailed "stats option"

definition tracker_init :: "stats option \<Rightarrow> tracker" where
  "tracker_init file =
     \<lparr>previous_rates = (case file of None \<Rightarrow> [] | Some data \<Rightarrow> s_previous_rates data),
      current_rates = []\<rparr>"

definition run_task ::
  "(symbol \<times> rat) list option \<Rightarrow> string \<Rightarrow> write_outcome \<Rightarrow> tracker \<times> stats option
     \<Rightarrow> (tracker \<times> stats option) \<times> stats option" where
  "run_task response now outcome st =
     (let self = (fst st)\<lparr>current_rates := get_funding_rates response\<rparr>;
          file = snd st
      in if current_rates self = [] then ((self, file), None)
         else
           let highest_rates = get_top_n (current_rates self) 5 True;
               lowest_rates = get_top_n (current_rates self) 5 False;
               increasing_rates =
                 (if previous_rates self \<noteq> []
                  then get_biggest_changes (current_rates self) (previous_rates self) 5 True
                  else []);
               decreasing_rates =
                 (if previous_rates self \<noteq> []
                  then get_biggest_changes (current_rates self) (previous_rates self) 5 False
                  else []);
               stats = \<lparr>s_timestamp = now,
                        s_highest_rates = highest_rates,
                        s_lowest_rates = lowest_rates,
                        s_biggest_increases = increasing_rates,
                        s_biggest_decreases = decreasing_rates,
                        s_previous_rates = current_rates self\<rparr>;
               file' = (case outcome of Written \<Rightarrow> Some stats | WriteFailed left \<Rightarrow> left)
           in ((self\<lparr>previous_rates := current_rates self\<rparr>, file'), Some stats))"

text \<open>
  The bytes of \<open>data_file\<close> during \<open>with open(data_file, 'w') as f: json.dump(stats, f)\<close>,
  one entry for each point at which the process can be interrupted: the old content before
  \<open>open\<close>, the empty file once \<open>open\<close> has truncated it, and the text written so far after
  each chunk of the serialisation has reached the file.
\<close>

definition save_states :: "string \<Rightarrow> string list \<Rightarrow> string list" where
  "save_states old chunks =
     old # map (\<lambda>k. concat (take k chunks)) [0..<Suc (length chunks)]"


section \<open>Price and funding monitor (pages/CryptoRateTradeMonitor.py)\<close>

text \<open>
  The per-symbol record of the session state; only the fields that \<open>update_data\<close> reads or
  writes.  A \<open>datetime\<close> is its number of microseconds since the epoch.
\<close>

record symbol_data =
  timestamps :: "int list"
  spot_prices :: "rat list"
  futures_prices :: "rat list"
  premiums :: "rat list"
  funding_rates :: "rat list"
  open_interest :: "rat list"
  last_funding_rate :: "rat option"

definition HOURS_TO_DISPLAY :: int where
  "HOURS_TO_DISPLAY = 4"

definition timedelta_hours :: "int \<Rightarrow> int" where
  "timedelta_hours h = h * 3600000000"

text \<open>
  The funding-rate branch of \<open>update_data\<close>: the new record and the value that the local
  variable \<open>funding_rate\<close> has afterwards.
\<close>

definition append_funding_rate :: "rat option \<Rightarrow> symbol_data \<Rightarrow> symbol_data \<times> rat option" where
  "append_funding_rate funding_rate d =
     (case funding_rate of
        Some r \<Rightarrow>
          (d\<lparr>funding_rates := funding_rates d @ [r * 100], last_funding_rate := Some r\<rparr>,
           Some r)
      | None \<Rightarrow>
          if funding_rates d \<noteq> []
          then (d\<lparr>funding_rates := funding_rates d @ [last (funding_rates d)]\<rparr>, None)
          else (d\<lparr>funding_rates := funding_rates d @ [0]\<rparr>, Some 0))"

text \<open>The open-interest branch, likewise.\<close>

definition append_open_interest :: "rat option \<Rightarrow> symbol_data \<Rightarrow> symbol_data \<times> rat option" where
  "append_open_interest oi d =
     (case oi of
        Some v \<Rightarrow> (d\<lparr>open_interest := open_interest d @ [v]\<rparr>, Some v)
      | None \<Rightarrow>
          if open_interest d \<noteq> []
          then (d\<lparr>open_interest := open_interest d @ [last (open_interest d)]\<rparr>,
                Some (last (open_interest d)))
          else (d\<lparr>open_interest := open_interest d @ [0]\<rparr>, Some 0))"

text \<open>The clean-up of points older than the display window, at the end of \<open>update_data\<close>.\<close>

definition evict_old :: "int \<Rightarrow> symbol_data \<Rightarrow> symbol_data" where
  "evict_old now d =
     (if length (timestamps d) > 1
      then
        let cutoff_time = now - timedelta_hours HOURS_TO_DISPLAY in
        (case timestamps d of
           [] \<Rightarrow> d
         | first # _ \<Rightarrow>
             if first < cutoff_time
             then
               (case filter (\<lambda>i. timestamps d ! i \<ge> cutoff_time) [0..<length (timestamps d)] of
                  [] \<Rightarrow> d
                | start_idx # _ \<Rightarrow>
                    d\<lparr>timestamps := py_from start_idx (timestamps d),
                      spot_prices := py_from start_idx (spot_prices d),
                      futures_prices := py_from start_idx (futures_prices d),
                      premiums := py_from start_idx (premiums d),
                      funding_rates := py_from start_idx (funding_rates d),
                      open_interest := py_from start_idx (open_interest d)\<rparr>)
             else d)
      else d)"

text \<open>
  \<open>update_data\<close>: the four fetches are its inputs, each a value or \<open>None\<close>.  The result is
  the exception that leaves the function, or the updated record with the returned tuple
  (spot price, futures price, premium, funding rate, open interest).
\<close>

type_synonym update_result = "rat option \<times> rat option \<times> rat option \<times> rat option \<times> rat option"

definition update_data ::
  "int \<Rightarrow> rat option \<Rightarrow> rat option \<Rightarrow> rat option \<Rightarrow> rat option \<Rightarrow> symbol_data
     \<Rightarrow> py_error + (symbol_data \<times> update_result)" where
  "update_data now spot_price futures_price funding_rate oi d =
     (case spot_price of
        None \<Rightarrow> Inr (d, (None, None, None, funding_rate, oi))
      | Some sp \<Rightarrow>
          (case futures_price of
             None \<Rightarrow> Inr (d, (None, None, None, funding_rate, oi))
           | Some fp \<Rightarrow>
               (case py_truediv (fp - sp) sp of
                  Inl e \<Rightarrow> Inl e
                | Inr q \<Rightarrow>
                    let premium = q * 100;
                        d1 = d\<lparr>timestamps := timestamps d @ [now],
                               spot_prices := spot_prices d @ [sp],
                               futures_prices := futures_prices d @ [fp],
                               premiums := premiums d @ [premium]\<rparr>;
                        r2 = append_funding_rate funding_rate d1;
                        r3 = append_open_interest oi (fst r2)
                    in Inr (evict_old now (fst r3),
                            (Some sp, Some fp, Some premium, snd r2, snd r3)))))"

text \<open>
  The loop of \<open>get_historical_klines\<close> over \<open>range(min_length)\<close>: a candle is its open time
  in milliseconds and its close price.  The division raises inside the loop.
\<close>

fun premium_rows ::
  "((int \<times> rat) \<times> (int \<times> rat)) list \<Rightarrow> py_error + (int \<times> rat \<times> rat \<times> rat) list" where
  "premium_rows [] = Inr []"
| "premium_rows ((spot, futures) # rest) =
     (case py_truediv (snd futures - snd spot) (snd spot) of
        Inl e \<Rightarrow> Inl e
      | Inr q \<Rightarrow>
          (case premium_rows rest of
             Inl e \<Rightarrow> Inl e
           | Inr rows \<Rightarrow> Inr ((fst spot * 1000, snd spot, snd futures, q * 100) # rows)))"

text \<open>
  \<open>get_historical_klines\<close>: each decoded response is a list of candles, or \<open>None\<close> when
  the request raised.  Every exception is caught, shown with \<open>st.error\<close> and answered with
  four empty lists; the first component is the error shown, if any.
\<close>

definition get_historical_klines ::
  "(int \<times> rat) list option \<Rightarrow> (int \<times> rat) list option
     \<Rightarrow> py_error option \<times> int list \<times> rat list \<times> rat list \<times> rat list" where
  "get_historical_klines spot_data futures_data =
     (case spot_data of
        None \<Rightarrow> (Some RequestException, [], [], [], [])
      | Some sd \<Rightarrow>
          (case futures_data of
             None \<Rightarrow> (Some RequestException, [], [], [], [])
           | Some fd \<Rightarrow>
               (case premium_rows (zip sd fd) of
                  Inl e \<Rightarrow> (Some e, [], [], [], [])
                | Inr rows \<Rightarrow>
                    (None, map fst rows, map (fst \<circ> snd) rows,
                     map (fst \<circ> snd \<circ> snd) rows, map (snd \<circ> snd \<circ> snd) rows))))"

text \<open>
  \<open>get_historical_funding_rates\<close>: an item of the response is its funding time in
  milliseconds and its funding rate.
\<close>

definition get_historical_funding_rates ::
  "(int \<times> rat) list option \<Rightarrow> py_error option \<times> int list \<times> rat list" where
  "get_historical_funding_rates response =
     (case response of
        None \<Rightarrow> (Some RequestException, [], [])
      | Some data \<Rightarrow> (None, map (\<lambda>item. fst item * 1000) data, map (\<lambda>item. snd item * 100) data))"

text \<open>The record of a symbol when its session state is created.\<close>

definition initial_symbol_data :: symbol_data where
  "initial_symbol_data =
     \<lparr>timestamps = [], spot_prices = [], futures_prices = [], premiums = [],
      funding_rates = [], open_interest = [], last_funding_rate = None\<rparr>"

text \<open>
  The invariant of the record, and two abbreviations for stating what \<open>update_data\<close> does to
  it: the record with one sample appended to each series, and the record with every series
  cut at the same index.
\<close>

definition equal_lengths :: "symbol_data \<Rightarrow> bool" where
  "equal_lengths d =
     (length (spot_prices d) = length (timestamps d)
      \<and> length (futures_prices d) = length (timestamps d)
      \<and> length (premiums d) = length (timestamps d)
      \<and> length (funding_rates d) = length (timestamps d)
      \<and> length (open_interest d) = length (timestamps d))"

definition drop_all :: "nat \<Rightarrow> symbol_data \<Rightarrow> symbol_data" where
  "drop_all k d =
     d\<lparr>timestamps := drop k (timestamps d),
       spot_prices := drop k (spot_prices d),
       futures_prices := drop k (futures_prices d),
       premiums := drop k (premiums d),
       funding_rates := drop k (funding_rates d),
       open_interest := drop k (open_interest d)\<rparr>"

definition appended ::
  "int \<Rightarrow> rat \<Rightarrow> rat \<Rightarrow> rat option \<Rightarrow> rat option \<Rightarrow> symbol_data \<Rightarrow> symbol_data" where
  "appended now sp fp funding_rate oi d =
     d\<lparr>timestamps := timestamps d @ [now],
       spot_prices := spot_prices d @ [sp],
       futures_prices := futures_prices d @ [fp],
       premiums := premiums d @ [(fp - sp) / sp * 100],
       funding_rates := funding_rates d @
         [case funding_rate of
            Some r \<Rightarrow> r * 100
          | None \<Rightarrow> if funding_rates d \<noteq> [] then last (funding_rates d) else 0],
       open_interest := open_interest d @
         [case oi of
            Some v \<Rightarrow> v
          | None \<Rightarrow> if open_interest d \<noteq> [] then last (open_interest d) else 0],
       last_funding_rate :=
         (case funding_rate of Some r \<Rightarrow> Some r | None \<Rightarrow> last_funding_rate d)\<rparr>"

section \<open>Money-flow page (pages/deepseekmoney.py)\<close>

record kline =
  k_symbol :: symbol
  k_open_time :: rat
  k_close_time :: rat
  k_open :: rat
  k_high :: rat
  k_low :: rat
  k_close :: rat
  k_volume :: rat
  k_quote_volume :: rat
  k_trades :: rat
  k_taker_buy_base_volume :: rat
  k_taker_buy_quote_volume :: rat
  k_net_inflow :: rat

text \<open>
  \<open>fetch_kline\<close>: the decoded response of the request for a symbol is a list of candles,
  each a list of numbers, or \<open>None\<close> when the request raised.  Fewer than two candles
  return \<open>None\<close>; a candle with fewer than eleven fields raises \<open>IndexError\<close>, which the
  \<open>except\<close> turns into \<open>None\<close> as well.
\<close>

definition fetch_kline :: "(symbol \<Rightarrow> rat list list option) \<Rightarrow> symbol \<Rightarrow> kline option" where
  "fetch_kline response symbol =
     (case response symbol of
        None \<Rightarrow> None
      | Some data \<Rightarrow>
          if data = [] \<or> length data < 2 then None
          else
            let k = data ! 1 in
            if length k < 11 then None
            else Some \<lparr>k_symbol = symbol,
                       k_open_time = k ! 0,
                       k_close_time = k ! 6,
                       k_open = k ! 1,
                       k_high = k ! 2,
                       k_low = k ! 3,
                       k_close = k ! 4,
                       k_volume = k ! 5,
                       k_quote_volume = k ! 7,
                       k_trades = k ! 8,
                       k_taker_buy_base_volume = k ! 9,
                       k_taker_buy_quote_volume = k ! 10,
                       k_net_inflow = 2 * (k ! 10) - k ! 7\<rparr>)"

text \<open>
  \<open>get_klines_parallel\<close>: one future per position of \<open>symbols\<close>; \<open>as_completed\<close> yields
  every future once, in the order \<open>completed\<close> of the positions, which the thread pool
  decides.  A result is appended when it is not \<open>None\<close>.
\<close>

definition get_klines_parallel ::
  "(symbol \<Rightarrow> rat list list option) \<Rightarrow> nat list \<Rightarrow> symbol list \<Rightarrow> kline list" where
  "get_klines_parallel response completed symbols =
     List.map_filter (\<lambda>i. fetch_kline response (symbols ! i)) completed"

section \<open>Open-interest analysis (pages/binanceperpsanalysis.py)\<close>

record position =
  p_symbol :: symbol
  p_current_oi :: rat
  p_historical_oi :: rat
  p_change :: rat
  p_change_percentage :: rat

text \<open>
  \<open>get_position_data\<close>: \<open>current\<close> is the open interest of the first request and
  \<open>historical\<close> the list of \<open>sumOpenInterest\<close> values of the second, each \<open>None\<close> when the
  request or the decoding raised.  The \<open>except\<close> returns a record of zeros.
\<close>

definition get_position_data ::
  "(symbol \<Rightarrow> rat option) \<Rightarrow> (symbol \<Rightarrow> rat list option) \<Rightarrow> symbol \<Rightarrow> position" where
  "get_position_data current historical symbol =
     (case current symbol of
        None \<Rightarrow> \<lparr>p_symbol = symbol, p_current_oi = 0, p_historical_oi = 0, p_change = 0,
                 p_change_percentage = 0\<rparr>
      | Some current_oi \<Rightarrow>
          (case historical symbol of
             None \<Rightarrow> \<lparr>p_symbol = symbol, p_current_oi = 0, p_historical_oi = 0, p_change = 0,
                      p_change_percentage = 0\<rparr>
           | Some historical_data \<Rightarrow>
               let historical_oi = (case historical_data of [] \<Rightarrow> 0 | first # _ \<Rightarrow> first);
                   change = current_oi - historical_oi;
                   change_percentage =
                     (if historical_oi \<noteq> 0 then change / historical_oi * 100 else 0)
               in \<lparr>p_symbol = symbol, p_current_oi = current_oi,
                    p_historical_oi = historical_oi, p_change = change,
                    p_change_percentage = change_percentage\<rparr>))"

text \<open>
  \<open>analyze_positions\<close> reads the futures in submission order and appends every result:
  \<open>get_position_data\<close> never raises and never returns an empty dict.
\<close>

definition analyze_positions ::
  "(symbol \<Rightarrow> rat option) \<Rightarrow> (symbol \<Rightarrow> rat list option) \<Rightarrow> symbol list \<Rightarrow> position list" where
  "analyze_positions current historical symbols =
     map (get_position_data current historical) symbols"

text \<open>Whether the two requests for a symbol both succeeded.\<close>

definition fetch_ok :: "(symbol \<Rightarrow> rat option) \<Rightarrow> (symbol \<Rightarrow> rat list option) \<Rightarrow> symbol \<Rightarrow> bool" where
  "fetch_ok current historical symbol = (current symbol \<noteq> None \<and> historical symbol \<noteq> None)"

text \<open>
  The rate limiter: \<open>requests\<close> is the queue of recorded timestamps, oldest first.
\<close>

record rate_limiter =
  max_requests :: int
  time_window :: rat
  requests :: "rat list"

text \<open>The eviction loop of \<open>acquire\<close>.\<close>

fun evict_expired :: "rat \<Rightarrow> rat \<Rightarrow> rat list \<Rightarrow> rat list" where
  "evict_expired current_time window [] = []"
| "evict_expired current_time window (request_time # rest) =
     (if current_time - request_time > window
      then evict_expired current_time window rest
      else request_time # rest)"

text \<open>
  \<open>acquire\<close>, given the clock reading \<open>current_time\<close> of its first line: the new limiter and
  the time slept (0 when it does not sleep).  Reading \<open>queue[0]\<close> of an empty queue raises
  \<open>IndexError\<close>, which happens only when \<open>max_requests\<close> is not positive.
\<close>

definition acquire :: "rat \<Rightarrow> rate_limiter \<Rightarrow> py_error + (rate_limiter \<times> rat)" where
  "acquire current_time self =
     (let queue = evict_expired current_time (time_window self) (requests self) in
      if int (length queue) \<ge> max_requests self
      then
        (case queue of
           [] \<Rightarrow> Inl IndexError
         | oldest_request # _ \<Rightarrow>
             let sleep_time = oldest_request + time_window self - current_time in
             Inr (self\<lparr>requests := queue @ [current_time]\<rparr>,
                  if sleep_time > 0 then sleep_time else 0))
      else Inr (self\<lparr>requests := queue @ [current_time]\<rparr>, 0))"

text \<open>A sequence of \<open>acquire\<close> calls at the given clock readings; the time slept in each.\<close>

fun acquire_all :: "rat list \<Rightarrow> rate_limiter \<Rightarrow> py_error + (rate_limiter \<times> rat list)" where
  "acquire_all [] self = Inr (self, [])"
| "acquire_all (t # ts) self =
     (case acquire t self of
        Inl e \<Rightarrow> Inl e
      | Inr (self', slept) \<Rightarrow>
          (case acquire_all ts self' of
             Inl e \<Rightarrow> Inl e
           | Inr (self'', sleeps) \<Rightarrow> Inr (self'', slept # sleeps)))"

text \<open>The recorded timestamps that are less than \<open>time_window\<close> old at time \<open>t\<close>.\<close>

definition in_window :: "rat \<Rightarrow> rate_limiter \<Rightarrow> rat list" where
  "in_window t self = filter (\<lambda>request_time. t - request_time < time_window self) (requests self)"

text \<open>
  The bound of the limiter at time \<open>t\<close>: the queue is ordered, no timestamp is later than
  \<open>t\<close>, and at most \<open>max_requests\<close> of them are at most \<open>time_window\<close> old.
\<close>

definition limiter_inv :: "rat \<Rightarrow> rate_limiter \<Rightarrow> bool" where
  "limiter_inv t self =
     (sorted (requests self)
      \<and> (\<forall>r \<in> set (requests self). r \<le> t)
      \<and> int (length (filter (\<lambda>r. t - r \<le> time_window self) (requests self)))
          \<le> max_requests self)"

section \<open>Sorting and slicing\<close>

lemma mset_py_sorted: "mset (py_sorted key reverse xs) = mset xs"
  by (simp add: py_sorted_def)

lemma py_sorted_ascending:
  "sorted_wrt (\<lambda>a b. key a \<le> key b) (py_sorted key False xs)"
  using sorted_sort_key [of key xs] by (simp add: py_sorted_def sorted_map)

lemma py_sorted_descending:
  "sorted_wrt (\<lambda>a b. key b \<le> key a) (py_sorted key True xs)"
  using sorted_sort_key [of key "rev xs"]
  by (simp add: py_sorted_def sorted_map sorted_wrt_rev)

lemma py_sorted_stable:
  "filter (\<lambda>y. key y = k) (py_sorted key reverse xs) = filter (\<lambda>y. key y = k) xs"
  by (simp add: py_sorted_def sort_key_stable rev_filter [symmetric])

lemma py_take_all: "int (length xs) \<le> n \<Longrightarrow> py_take n xs = xs"
  by (simp add: py_take_def)

lemma length_py_take: "0 \<le> n \<Longrightarrow> length (py_take n xs) \<le> nat n"
  by (simp add: py_take_def)

lemma set_py_take: "set (py_take n xs) \<subseteq> set xs"
  by (auto simp: py_take_def dest: in_set_takeD)

lemma sorted_wrt_py_take: "sorted_wrt R xs \<Longrightarrow> sorted_wrt R (py_take n xs)"
  by (simp add: py_take_def sorted_wrt_take)

lemma distinct_map_py_take: "distinct (map f xs) \<Longrightarrow> distinct (map f (py_take n xs))"
  by (simp add: py_take_def take_map [symmetric] distinct_take)

lemma distinct_map_py_sorted:
  "distinct (map f xs) \<Longrightarrow> distinct (map f (py_sorted key reverse xs))"
proof -
  assume "distinct (map f xs)"
  moreover have "mset (map f (py_sorted key reverse xs)) = mset (map f xs)"
    by (simp add: mset_py_sorted)
  ultimately show ?thesis by (metis distinct_count_atmost_1 set_mset_mset)
qed

lemma sorted_wrt_strict:
  "sorted_wrt (\<lambda>a b. f a \<le> f b) xs \<Longrightarrow> distinct (map f xs) \<Longrightarrow>
   sorted_wrt (\<lambda>a b. (f a :: 'k::linorder) < f b) xs"
  by (induction xs) (auto simp: order_less_le)

lemma sorted_wrt_strict_desc:
  "sorted_wrt (\<lambda>a b. f b \<le> f a) xs \<Longrightarrow> distinct (map f xs) \<Longrightarrow>
   sorted_wrt (\<lambda>a b. (f b :: 'k::linorder) < f a) xs"
  by (induction xs) (auto simp: order_less_le image_iff)

text \<open>
  C3 (amended): for every mapping, every \<open>n \<ge> 0\<close> and every direction, \<open>get_top_n\<close> returns
  at most \<open>n\<close> entries, sorted by value in the requested direction with ties allowed
  (descending when \<open>reverse\<close> is true, ascending otherwise), strictly so when the values of
  the mapping are pairwise different; when \<open>n\<close> is at least the size of the mapping the
  output holds every entry of the mapping exactly once.
\<close>

theorem get_top_n_ranked:
  assumes "0 \<le> n"
  shows "length (get_top_n rates n reverse) \<le> nat n
       \<and> (if reverse
          then sorted_wrt (\<lambda>a b. snd b \<le> snd a) (get_top_n rates n reverse)
          else sorted_wrt (\<lambda>a b. snd a \<le> snd b) (get_top_n rates n reverse))
       \<and> (distinct (map snd rates) \<longrightarrow>
           (if reverse
            then sorted_wrt (\<lambda>a b. snd b < snd a) (get_top_n rates n reverse)
            else sorted_wrt (\<lambda>a b. snd a < snd b) (get_top_n rates n reverse)))
       \<and> (int (length rates) \<le> n \<longrightarrow> mset (get_top_n rates n reverse) = mset rates)"
proof -
  let ?s = "py_sorted snd reverse rates"
  have len: "length (get_top_n rates n reverse) \<le> nat n"
    using assms by (simp add: get_top_n_def length_py_take)
  have asc: "\<not> reverse \<Longrightarrow> sorted_wrt (\<lambda>a b. snd a \<le> snd b) (get_top_n rates n reverse)"
    using py_sorted_ascending [of snd rates]
    by (simp add: get_top_n_def sorted_wrt_py_take)
  have desc: "reverse \<Longrightarrow> sorted_wrt (\<lambda>a b. snd b \<le> snd a) (get_top_n rates n reverse)"
    using py_sorted_descending [of snd rates]
    by (simp add: get_top_n_def sorted_wrt_py_take)
  have dist: "distinct (map snd rates) \<Longrightarrow> distinct (map snd (get_top_n rates n reverse))"
    by (simp add: get_top_n_def distinct_map_py_take distinct_map_py_sorted)
  have all: "int (length rates) \<le> n \<Longrightarrow> mset (get_top_n rates n reverse) = mset rates"
  proof -
    assume "int (length rates) \<le> n"
    moreover have "length ?s = length rates"
      by (metis mset_py_sorted size_mset)
    ultimately have "py_take n ?s = ?s" by (simp add: py_take_all)
    then show ?thesis by (simp add: get_top_n_def mset_py_sorted)
  qed
  show ?thesis
    using len asc desc all sorted_wrt_strict [OF asc dist] sorted_wrt_strict_desc [OF desc dist]
    by auto
qed

lemma update_fresh: "k \<notin> fst ` set al \<Longrightarrow> AList.update k v al = al @ [(k, v)]"
  by (induction al) auto

section \<open>Changes between two polls\<close>

lemma change_step_fresh:
  "fst item \<notin> fst ` set changes \<Longrightarrow>
   change_step previous increasing item changes = changes @ change_of previous increasing item"
  by (simp add: change_step_def change_of_def update_fresh Let_def split: option.splits)

lemma change_of_cases:
  "change_of previous increasing item = []
   \<or> (\<exists>c. change_of previous increasing item = [(fst item, c)])"
  by (simp add: change_of_def split: option.splits)

lemma fold_change_step:
  "distinct (map fst acc @ map fst xs) \<Longrightarrow>
   fold (change_step previous increasing) xs acc
     = acc @ concat (map (change_of previous increasing) xs)"
proof (induction xs arbitrary: acc)
  case Nil
  then show ?case by simp
next
  case (Cons x xs)
  have fresh: "fst x \<notin> fst ` set acc" using Cons.prems by simp
  let ?acc = "acc @ change_of previous increasing x"
  have "distinct (map fst ?acc @ map fst xs)"
  proof (cases "change_of previous increasing x = []")
    case True
    then show ?thesis using Cons.prems by simp
  next
    case False
    then obtain c where "change_of previous increasing x = [(fst x, c)]"
      using change_of_cases [of previous increasing x] by blast
    then show ?thesis using Cons.prems by simp
  qed
  then have "fold (change_step previous increasing) xs ?acc
      = ?acc @ concat (map (change_of previous increasing) xs)"
    by (rule Cons.IH)
  then show ?case by (simp add: change_step_fresh [OF fresh])
qed

lemma collect_changes_eq:
  "distinct (map fst current) \<Longrightarrow>
   collect_changes current previous increasing
     = concat (map (change_of previous increasing) current)"
  by (simp add: collect_changes_def fold_change_step)

lemma in_change_of:
  "(s, c) \<in> set (change_of previous increasing (k, r)) \<longleftrightarrow>
     s = k \<and> (\<exists>p. map_of previous k = Some p \<and> c = r - p
                  \<and> (if increasing then 0 < c else c < 0))"
  by (auto simp: change_of_def split: option.splits)

lemma set_collect_changes:
  assumes "distinct (map fst current)"
  shows "(s, c) \<in> set (collect_changes current previous increasing) \<longleftrightarrow>
         (\<exists>r p. map_of current s = Some r \<and> map_of previous s = Some p \<and> c = r - p
                \<and> (if increasing then 0 < c else c < 0))"
proof -
  have "(s, c) \<in> set (collect_changes current previous increasing) \<longleftrightarrow>
        (\<exists>k r. (k, r) \<in> set current \<and> (s, c) \<in> set (change_of previous increasing (k, r)))"
    by (simp add: collect_changes_eq [OF assms] Bex_def)
  also have "\<dots> \<longleftrightarrow> (\<exists>r. (s, r) \<in> set current \<and>
        (\<exists>p. map_of previous s = Some p \<and> c = r - p
                  \<and> (if increasing then 0 < c else c < 0)))"
    unfolding in_change_of by blast
  also have "\<dots> \<longleftrightarrow> (\<exists>r p. map_of current s = Some r \<and> map_of previous s = Some p \<and> c = r - p
                \<and> (if increasing then 0 < c else c < 0))"
    unfolding map_of_eq_Some_iff [OF assms] by blast
  finally show ?thesis .
qed

lemma set_get_biggest_changes:
  "set (get_biggest_changes current previous n increasing)
     \<subseteq> set (collect_changes current previous increasing)"
  using set_py_take [of n "py_sorted snd increasing (collect_changes current previous increasing)"]
    mset_py_sorted [of snd increasing "collect_changes current previous increasing"]
  by (metis get_biggest_changes_def set_mset_mset)

lemma length_collect_changes:
  "distinct (map fst current) \<Longrightarrow>
   length (collect_changes current previous increasing) \<le> length current"
proof -
  have "length (concat (map (change_of previous increasing) xs)) \<le> length xs" for xs
    by (induction xs) (auto simp: change_of_def split: option.splits)
  then show "distinct (map fst current) \<Longrightarrow> ?thesis" by (simp add: collect_changes_eq)
qed

lemma get_biggest_changes_all:
  assumes "distinct (map fst current)" "int (length current) \<le> n"
  shows "set (get_biggest_changes current previous n increasing)
         = set (collect_changes current previous increasing)"
proof -
  let ?c = "collect_changes current previous increasing"
  have "length (py_sorted snd increasing ?c) = length ?c"
    by (metis mset_py_sorted size_mset)
  then have "py_take n (py_sorted snd increasing ?c) = py_sorted snd increasing ?c"
    using assms length_collect_changes [OF assms(1), of previous increasing]
    by (simp add: py_take_all)
  then show ?thesis
    by (metis get_biggest_changes_def mset_py_sorted set_mset_mset)
qed

text \<open>
  C2: for every pair of mappings, every \<open>n\<close> and every direction, each entry that
  \<open>get_biggest_changes\<close> returns belongs to a symbol present in both mappings, carries the
  change \<open>current[symbol] - previous[symbol]\<close>, and that change is not zero, strictly positive
  when increases are requested and strictly negative otherwise; a symbol whose rate did not
  change is in neither list; and when \<open>n\<close> does not cut the list, every symbol present in
  both mappings whose change has the requested sign is returned.
\<close>

theorem get_biggest_changes_sound_complete:
  assumes "distinct (map fst current)"
  shows "(\<forall>(s, c) \<in> set (get_biggest_changes current previous n increasing).
            \<exists>r p. map_of current s = Some r \<and> map_of previous s = Some p \<and> c = r - p
                  \<and> c \<noteq> 0 \<and> (if increasing then 0 < c else c < 0))
       \<and> (\<forall>s r. map_of current s = Some r \<and> map_of previous s = Some r \<longrightarrow>
            s \<notin> fst ` set (get_biggest_changes current previous n True)
          \<and> s \<notin> fst ` set (get_biggest_changes current previous n False))
       \<and> (int (length current) \<le> n \<longrightarrow>
            (\<forall>s r p. map_of current s = Some r \<and> map_of previous s = Some p
                     \<and> (if increasing then 0 < r - p else r - p < 0)
               \<longrightarrow> (s, r - p) \<in> set (get_biggest_changes current previous n increasing)))"
proof -
  have sound: "\<exists>r p. map_of current s = Some r \<and> map_of previous s = Some p \<and> c = r - p
                  \<and> c \<noteq> 0 \<and> (if inc then 0 < c else c < 0)"
    if "(s, c) \<in> set (get_biggest_changes current previous n inc)" for s c inc
  proof -
    from that have "(s, c) \<in> set (collect_changes current previous inc)"
      using set_get_biggest_changes by blast
    then obtain r p where "map_of current s = Some r" "map_of previous s = Some p" "c = r - p"
      "if inc then 0 < c else c < 0"
      using set_collect_changes [OF assms] by blast
    moreover from this have "c \<noteq> 0" by (auto split: if_splits)
    ultimately show ?thesis by blast
  qed
  have zero: "s \<notin> fst ` set (get_biggest_changes current previous n inc)"
    if "map_of current s = Some r" "map_of previous s = Some r" for s r inc
  proof
    assume "s \<in> fst ` set (get_biggest_changes current previous n inc)"
    then obtain c where "(s, c) \<in> set (get_biggest_changes current previous n inc)" by auto
    from sound [OF this] that show False by auto
  qed
  have complete: "(s, r - p) \<in> set (get_biggest_changes current previous n increasing)"
    if "int (length current) \<le> n" "map_of current s = Some r" "map_of previous s = Some p"
       "if increasing then 0 < r - p else r - p < 0" for s r p
    using that get_biggest_changes_all [OF assms that(1)] set_collect_changes [OF assms]
    by blast
  have c1: "\<forall>(s, c) \<in> set (get_biggest_changes current previous n increasing).
            \<exists>r p. map_of current s = Some r \<and> map_of previous s = Some p \<and> c = r - p
                  \<and> c \<noteq> 0 \<and> (if increasing then 0 < c else c < 0)"
    using sound [where inc = increasing] by (intro ballI) (simp add: split_beta)
  have c2: "\<forall>s r. map_of current s = Some r \<and> map_of previous s = Some r \<longrightarrow>
            s \<notin> fst ` set (get_biggest_changes current previous n True)
          \<and> s \<notin> fst ` set (get_biggest_changes current previous n False)"
    using zero [where inc = True] zero [where inc = False] by (intro allI impI conjI) simp_all
  have c3: "int (length current) \<le> n \<longrightarrow>
            (\<forall>s r p. map_of current s = Some r \<and> map_of previous s = Some p
                     \<and> (if increasing then 0 < r - p else r - p < 0)
               \<longrightarrow> (s, r - p) \<in> set (get_biggest_changes current previous n increasing))"
  proof (intro allI impI)
    fix s r p
    assume n: "int (length current) \<le> n"
      and h: "map_of current s = Some r \<and> map_of previous s = Some p
                     \<and> (if increasing then 0 < r - p else r - p < 0)"
    show "(s, r - p) \<in> set (get_biggest_changes current previous n increasing)"
      using complete [OF n conjunct1 [OF h] conjunct1 [OF conjunct2 [OF h]]
          conjunct2 [OF conjunct2 [OF h]]] .
  qed
  show ?thesis using c1 c2 c3 by (intro conjI)
qed

section \<open>The ranking scenario\<close>

text \<open>
  C1: with current rates \<open>{A: 0.02, B: -0.01, C: 0.005}\<close>, previous rates
  \<open>{A: 0.01, B: -0.01, C: 0.01}\<close> and \<open>n = 2\<close>, the highest rates are A then C, the lowest
  are B then C, the only increase is A by 0.01 and the only decrease is C by -0.005.
\<close>

theorem ranking_scenario:
  "get_top_n [(''A'', 0.02), (''B'', -0.01), (''C'', 0.005)] 2 True
     = [(''A'', 0.02), (''C'', 0.005)]
   \<and> get_top_n [(''A'', 0.02), (''B'', -0.01), (''C'', 0.005)] 2 False
     = [(''B'', -0.01), (''C'', 0.005)]
   \<and> get_biggest_changes [(''A'', 0.02), (''B'', -0.01), (''C'', 0.005)]
        [(''A'', 0.01), (''B'', -0.01), (''C'', 0.01)] 2 True
     = [(''A'', 0.01)]
   \<and> get_biggest_changes [(''A'', 0.02), (''B'', -0.01), (''C'', 0.005)]
        [(''A'', 0.01), (''B'', -0.01), (''C'', 0.01)] 2 False
     = [(''C'', -0.005)]"
  by (simp add: get_top_n_def get_biggest_changes_def collect_changes_def change_step_def
      py_take_def py_sorted_def)

text \<open>
  Witness for C2, on the mappings of the scenario: B, whose rate did not change, is not
  among the increases, and A's increase is returned.
\<close>

theorem get_biggest_changes_sound_complete_witness:
  "distinct (map fst [(''A'', 0.02 :: rat), (''B'', -0.01), (''C'', 0.005)])
   \<and> ''B'' \<notin> fst ` set (get_biggest_changes [(''A'', 0.02), (''B'', -0.01), (''C'', 0.005)]
        [(''A'', 0.01), (''B'', -0.01), (''C'', 0.01)] 2 True)
   \<and> (''A'', 0.02 - 0.01) \<in> set (get_biggest_changes [(''A'', 0.02), (''B'', -0.01), (''C'', 0.005)]
        [(''A'', 0.01), (''B'', -0.01), (''C'', 0.01)] 3 True)"
proof -
  let ?cur = "[(''A'', 0.02 :: rat), (''B'', -0.01), (''C'', 0.005)]"
  let ?prev = "[(''A'', 0.01 :: rat), (''B'', -0.01), (''C'', 0.01)]"
  have d: "distinct (map fst ?cur)" by simp
  have b: "map_of ?cur ''B'' = Some (-0.01) \<and> map_of ?prev ''B'' = Some (-0.01)" by simp
  have a: "map_of ?cur ''A'' = Some 0.02 \<and> map_of ?prev ''A'' = Some 0.01
           \<and> (if True then (0::rat) < 0.02 - 0.01 else (0.02::rat) - 0.01 < 0)" by simp
  have n: "int (length ?cur) \<le> 3" by simp
  from get_biggest_changes_sound_complete [OF d, of ?prev 2 True] b
  have 1: "''B'' \<notin> fst ` set (get_biggest_changes ?cur ?prev 2 True)" by blast
  from get_biggest_changes_sound_complete [OF d, of ?prev 3 True] n a
  have 2: "(''A'', 0.02 - 0.01) \<in> set (get_biggest_changes ?cur ?prev 3 True)" by blast
  show ?thesis using d 1 2 by (intro conjI)
qed

text \<open>
  Counterexample for C3 as stated: two symbols with the same funding rate are returned in
  iteration order, which is not strictly ascending and not strictly descending.
\<close>

theorem get_top_n_ties_counterexample:
  "\<not> sorted_wrt (\<lambda>a b. snd a < snd b)
       (get_top_n [(''BTCUSDT'', 0.0001), (''ETHUSDT'', 0.0001)] 2 False)
   \<and> \<not> sorted_wrt (\<lambda>a b. snd b < snd a)
       (get_top_n [(''BTCUSDT'', 0.0001), (''ETHUSDT'', 0.0001)] 2 True)"
  by (simp add: get_top_n_def py_take_def py_sorted_def)

text \<open>Witness for C3 (amended), on the mapping of the scenario.\<close>

theorem get_top_n_ranked_witness:
  "(0::int) \<le> 2
   \<and> length (get_top_n [(''A'', 0.02), (''B'', -0.01), (''C'', 0.005)] 2 True) \<le> nat 2
   \<and> sorted_wrt (\<lambda>a b. snd b < snd a)
        (get_top_n [(''A'', 0.02), (''B'', -0.01), (''C'', 0.005)] 2 True)
   \<and> mset (get_top_n [(''A'', 0.02), (''B'', -0.01)] 2 True)
       = mset [(''A'', 0.02), (''B'', -0.01)]"
proof -
  have h: "(0::int) \<le> 2" by simp
  have d: "distinct (map snd [(''A'', 0.02 :: rat), (''B'', -0.01), (''C'', 0.005)])" by simp
  have l: "int (length [(''A'', 0.02 :: rat), (''B'', -0.01)]) \<le> 2" by simp
  show ?thesis
    using h d l get_top_n_ranked [OF h, of "[(''A'', 0.02), (''B'', -0.01), (''C'', 0.005)]" True]
      get_top_n_ranked [OF h, of "[(''A'', 0.02), (''B'', -0.01)]" True]
    by simp
qed

section \<open>Updating the per-symbol series\<close>

lemma filter_head_in: "filter P xs = a # as \<Longrightarrow> a \<in> set xs"
  by (metis filter_is_subset list.set_intros(1) subsetD)

lemma drop_all_0: "drop_all 0 d = d"
  by (simp add: drop_all_def)

lemma evict_old_drop:
  "\<exists>k. (k = 0 \<or> k < length (timestamps d)) \<and> evict_old now d = drop_all k d"
proof (cases "evict_old now d = d")
  case True
  then show ?thesis using drop_all_0 [of d] by (intro exI [of _ 0]) simp
next
  case False
  then obtain start_idx rest where
    f: "filter (\<lambda>i. timestamps d ! i \<ge> now - timedelta_hours HOURS_TO_DISPLAY)
          [0..<length (timestamps d)] = start_idx # rest"
    and e: "evict_old now d = drop_all start_idx d"
    by (auto simp: evict_old_def drop_all_def py_from_def Let_def split: if_splits list.splits)
  from filter_head_in [OF f] have "start_idx < length (timestamps d)" by simp
  with e show ?thesis by blast
qed

lemma equal_lengths_drop_all: "equal_lengths d \<Longrightarrow> equal_lengths (drop_all k d)"
  by (simp add: equal_lengths_def drop_all_def)

lemma update_data_unavailable:
  "spot_price = None \<or> futures_price = None \<Longrightarrow>
   update_data now spot_price futures_price funding_rate oi d
     = Inr (d, (None, None, None, funding_rate, oi))"
  by (auto simp: update_data_def split: option.splits)

lemma update_data_zero_spot:
  "update_data now (Some 0) (Some fp) funding_rate oi d = Inl ZeroDivisionError"
  by (simp add: update_data_def py_truediv_def)

lemma update_data_available:
  assumes "sp \<noteq> 0"
  shows "\<exists>k. k \<le> length (timestamps d)
           \<and> update_data now (Some sp) (Some fp) funding_rate oi d
             = Inr (drop_all k (appended now sp fp funding_rate oi d),
                    (Some sp, Some fp, Some ((fp - sp) / sp * 100),
                     (case funding_rate of
                        Some r \<Rightarrow> Some r
                      | None \<Rightarrow> if funding_rates d \<noteq> [] then None else Some 0),
                     (case oi of
                        Some v \<Rightarrow> Some v
                      | None \<Rightarrow> if open_interest d \<noteq> [] then Some (last (open_interest d))
                                else Some 0)))"
proof -
  let ?d1 = "d\<lparr>timestamps := timestamps d @ [now],
               spot_prices := spot_prices d @ [sp],
               futures_prices := futures_prices d @ [fp],
               premiums := premiums d @ [(fp - sp) / sp * 100]\<rparr>"
  let ?r2 = "append_funding_rate funding_rate ?d1"
  let ?r3 = "append_open_interest oi (fst ?r2)"
  have d3: "fst ?r3 = appended now sp fp funding_rate oi d"
    by (simp add: append_funding_rate_def append_open_interest_def appended_def
        split: option.splits)
  have fr: "snd ?r2 = (case funding_rate of
                        Some r \<Rightarrow> Some r
                      | None \<Rightarrow> if funding_rates d \<noteq> [] then None else Some 0)"
    by (simp add: append_funding_rate_def split: option.splits)
  have oi: "snd ?r3 = (case oi of
                        Some v \<Rightarrow> Some v
                      | None \<Rightarrow> if open_interest d \<noteq> [] then Some (last (open_interest d))
                                else Some 0)"
    by (simp add: append_funding_rate_def append_open_interest_def split: option.splits)
  have u: "update_data now (Some sp) (Some fp) funding_rate oi d
      = Inr (evict_old now (fst ?r3), (Some sp, Some fp, Some ((fp - sp) / sp * 100),
             snd ?r2, snd ?r3))"
    using assms by (simp add: update_data_def py_truediv_def Let_def)
  obtain k where k: "k = 0 \<or> k < length (timestamps (fst ?r3))"
    and e: "evict_old now (fst ?r3) = drop_all k (fst ?r3)"
    using evict_old_drop [of "fst ?r3" now] by blast
  have "length (timestamps (fst ?r3)) = Suc (length (timestamps d))"
    unfolding d3 by (simp add: appended_def)
  with k have "k \<le> length (timestamps d)" by auto
  then show ?thesis using u e unfolding d3 fr oi by (intro exI [of _ k]) simp
qed

lemma equal_lengths_appended:
  "equal_lengths d \<Longrightarrow> equal_lengths (appended now sp fp funding_rate oi d)"
  by (simp add: equal_lengths_def appended_def)

lemma premium_rows_zero:
  "\<exists>row \<in> set rows. snd (fst row) = 0 \<Longrightarrow> premium_rows rows = Inl ZeroDivisionError"
proof (induction rows)
  case Nil
  then show ?case by simp
next
  case (Cons row rows)
  obtain spot futures where row: "row = (spot, futures)" by (cases row)
  show ?case
  proof (cases "snd spot = 0")
    case True
    then show ?thesis by (simp add: row py_truediv_def)
  next
    case False
    with Cons.prems row have "\<exists>row \<in> set rows. snd (fst row) = 0" by auto
    then have "premium_rows rows = Inl ZeroDivisionError" by (rule Cons.IH)
    then show ?thesis using False by (simp add: row py_truediv_def)
  qed
qed

lemma premium_rows_nonzero:
  "\<forall>row \<in> set rows. snd (fst row) \<noteq> 0 \<Longrightarrow>
   premium_rows rows
     = Inr (map (\<lambda>row. (fst (fst row) * 1000, snd (fst row), snd (snd row),
                        (snd (snd row) - snd (fst row)) / snd (fst row) * 100)) rows)"
  by (induction rows) (auto simp: py_truediv_def)

lemma update_data_lists:
  assumes "equal_lengths d" "sp \<noteq> 0"
  shows "\<exists>d' res k. update_data now (Some sp) (Some fp) funding_rate oi d = Inr (d', res)
          \<and> equal_lengths d' \<and> k \<le> length (timestamps d)
          \<and> timestamps d' = drop k (timestamps d @ [now])
          \<and> spot_prices d' = drop k (spot_prices d @ [sp])
          \<and> futures_prices d' = drop k (futures_prices d @ [fp])
          \<and> premiums d' = drop k (premiums d @ [(fp - sp) / sp * 100])
          \<and> funding_rates d' = drop k (funding_rates d @
               [case funding_rate of
                  Some r \<Rightarrow> r * 100
                | None \<Rightarrow> if funding_rates d \<noteq> [] then last (funding_rates d) else 0])
          \<and> open_interest d' = drop k (open_interest d @
               [case oi of
                  Some v \<Rightarrow> v
                | None \<Rightarrow> if open_interest d \<noteq> [] then last (open_interest d) else 0])
          \<and> last_funding_rate d'
              = (case funding_rate of Some r \<Rightarrow> Some r | None \<Rightarrow> last_funding_rate d)
          \<and> fst (snd (snd res)) = Some ((fp - sp) / sp * 100)
          \<and> fst (snd (snd (snd res)))
              = (case funding_rate of
                   Some r \<Rightarrow> Some r
                 | None \<Rightarrow> if funding_rates d \<noteq> [] then None else Some 0)"
proof -
  let ?res = "(Some sp, Some fp, Some ((fp - sp) / sp * 100),
                (case funding_rate of
                   Some r \<Rightarrow> Some r
                 | None \<Rightarrow> if funding_rates d \<noteq> [] then None else Some 0),
                (case oi of
                   Some v \<Rightarrow> Some v
                 | None \<Rightarrow> if open_interest d \<noteq> [] then Some (last (open_interest d))
                           else Some 0))"
  from update_data_available [OF assms(2), of d now fp funding_rate oi]
  obtain k where k': "k \<le> length (timestamps d)"
    and u: "update_data now (Some sp) (Some fp) funding_rate oi d
             = Inr (drop_all k (appended now sp fp funding_rate oi d), ?res)"
    by blast
  let ?d' = "drop_all k (appended now sp fp funding_rate oi d)"
  have e: "equal_lengths ?d'"
    using assms(1) by (simp add: equal_lengths_appended equal_lengths_drop_all)
  show ?thesis
    apply (intro exI [of _ ?d'] exI [of _ ?res] exI [of _ k])
    using u e k' by (simp add: drop_all_def appended_def)
qed

text \<open>
  C4: for every futures price, the premium computation with a spot price of zero raises
  \<open>ZeroDivisionError\<close>: \<open>update_data\<close> passes the exception to its caller before it has
  changed any list, and \<open>get_historical_klines\<close> reports it and returns four empty lists, so
  no infinity and no NaN is ever returned; for every positive spot price the computation
  succeeds with \<open>(futures - spot) / spot * 100\<close>.
\<close>

theorem premium_zero_spot_raises:
  "py_truediv (f - 0) 0 = Inl ZeroDivisionError
   \<and> update_data now (Some 0) (Some f) funding_rate oi d = Inl ZeroDivisionError
   \<and> ((\<exists>row \<in> set (zip sd fd). snd (fst row) = 0) \<longrightarrow>
        get_historical_klines (Some sd) (Some fd) = (Some ZeroDivisionError, [], [], [], []))
   \<and> (0 < spot \<longrightarrow>
        py_truediv (f - spot) spot = Inr ((f - spot) / spot)
        \<and> (\<exists>d' fr' oi'. update_data now (Some spot) (Some f) funding_rate oi d
              = Inr (d', (Some spot, Some f, Some ((f - spot) / spot * 100), fr', oi'))))"
proof -
  have 1: "py_truediv (f - 0) 0 = Inl ZeroDivisionError"
    by (simp add: py_truediv_def)
  have 2: "update_data now (Some 0) (Some f) funding_rate oi d = Inl ZeroDivisionError"
    by (rule update_data_zero_spot)
  have 3: "get_historical_klines (Some sd) (Some fd) = (Some ZeroDivisionError, [], [], [], [])"
    if "\<exists>row \<in> set (zip sd fd). snd (fst row) = 0"
    using premium_rows_zero [OF that] by (simp add: get_historical_klines_def)
  have 4: "py_truediv (f - spot) spot = Inr ((f - spot) / spot)" if "0 < spot"
    using that by (simp add: py_truediv_def)
  have 5: "\<exists>d' fr' oi'. update_data now (Some spot) (Some f) funding_rate oi d
              = Inr (d', (Some spot, Some f, Some ((f - spot) / spot * 100), fr', oi'))"
    if "0 < spot"
  proof -
    from that have "spot \<noteq> 0" by simp
    from update_data_available [OF this, of d now f funding_rate oi] show ?thesis by blast
  qed
  show ?thesis using 1 2 3 4 5 by (intro conjI impI) simp_all
qed

text \<open>Witness for C4: a zero spot close in the history, and a spot price of 100.\<close>

theorem premium_zero_spot_raises_witness:
  "(\<exists>row \<in> set (zip [(0, 0 :: rat)] [(0 :: int, 1 :: rat)]). snd (fst row) = 0)
   \<and> (0 :: rat) < 100
   \<and> update_data 0 (Some 0) (Some 101) None None initial_symbol_data = Inl ZeroDivisionError
   \<and> get_historical_klines (Some [(0, 0)]) (Some [(0, 1)])
       = (Some ZeroDivisionError, [], [], [], [])
   \<and> py_truediv (101 - 100) 100 = Inr ((101 - 100) / 100)"
proof -
  have a: "\<exists>row \<in> set (zip [(0 :: int, 0 :: rat)] [(0 :: int, 1 :: rat)]). snd (fst row) = 0"
    by simp
  have b: "(0 :: rat) < 100" by simp
  show ?thesis
    using a b premium_zero_spot_raises [of 101 0 None None initial_symbol_data "[(0, 0)]" "[(0, 1)]" 100]
    by simp
qed

text \<open>
  C10 (amended): on a record whose six series have the same length, \<open>update_data\<close> keeps
  them so.  When a price is unavailable it appends to none of them; when both prices are
  available and the spot price is zero it raises \<open>ZeroDivisionError\<close> before any append;
  when both are available and the spot price is not zero it appends exactly one element to
  each series (the previous value or 0 for an unavailable funding rate or open interest)
  and cuts all six at the same index, which never removes the new sample.
\<close>

theorem update_data_preserves_equal_lengths:
  assumes "equal_lengths d"
  shows "(spot_price = None \<or> futures_price = None \<longrightarrow>
            update_data now spot_price futures_price funding_rate oi d
              = Inr (d, (None, None, None, funding_rate, oi)))
       \<and> (\<forall>fp. futures_price = Some fp \<longrightarrow>
            update_data now (Some 0) futures_price funding_rate oi d = Inl ZeroDivisionError)
       \<and> (\<forall>sp fp. spot_price = Some sp \<and> futures_price = Some fp \<and> sp \<noteq> 0 \<longrightarrow>
            (\<exists>d' res k. update_data now spot_price futures_price funding_rate oi d = Inr (d', res)
               \<and> equal_lengths d' \<and> k \<le> length (timestamps d)
               \<and> timestamps d' = drop k (timestamps d @ [now])
               \<and> spot_prices d' = drop k (spot_prices d @ [sp])
               \<and> futures_prices d' = drop k (futures_prices d @ [fp])
               \<and> premiums d' = drop k (premiums d @ [(fp - sp) / sp * 100])
               \<and> funding_rates d' = drop k (funding_rates d @
                    [case funding_rate of
                       Some r \<Rightarrow> r * 100
                     | None \<Rightarrow> if funding_rates d \<noteq> [] then last (funding_rates d) else 0])
               \<and> open_interest d' = drop k (open_interest d @
                    [case oi of
                       Some v \<Rightarrow> v
                     | None \<Rightarrow> if open_interest d \<noteq> [] then last (open_interest d) else 0])))"
proof (intro conjI allI impI)
  assume "spot_price = None \<or> futures_price = None"
  then show "update_data now spot_price futures_price funding_rate oi d
              = Inr (d, (None, None, None, funding_rate, oi))"
    by (rule update_data_unavailable)
next
  fix fp assume "futures_price = Some fp"
  then show "update_data now (Some 0) futures_price funding_rate oi d = Inl ZeroDivisionError"
    by (simp add: update_data_zero_spot)
next
  fix sp fp
  assume h: "spot_price = Some sp \<and> futures_price = Some fp \<and> sp \<noteq> 0"
  then have sp: "sp \<noteq> 0" by simp
  from update_data_lists [OF assms sp, of now fp funding_rate oi]
  obtain d' res k where
    "update_data now (Some sp) (Some fp) funding_rate oi d = Inr (d', res)"
    "equal_lengths d'" "k \<le> length (timestamps d)"
    "timestamps d' = drop k (timestamps d @ [now])"
    "spot_prices d' = drop k (spot_prices d @ [sp])"
    "futures_prices d' = drop k (futures_prices d @ [fp])"
    "premiums d' = drop k (premiums d @ [(fp - sp) / sp * 100])"
    "funding_rates d' = drop k (funding_rates d @
               [case funding_rate of
                  Some r \<Rightarrow> r * 100
                | None \<Rightarrow> if funding_rates d \<noteq> [] then last (funding_rates d) else 0])"
    "open_interest d' = drop k (open_interest d @
               [case oi of
                  Some v \<Rightarrow> v
                | None \<Rightarrow> if open_interest d \<noteq> [] then last (open_interest d) else 0])"
    by blast
  then show "\<exists>d' res k. update_data now spot_price futures_price funding_rate oi d = Inr (d', res)
               \<and> equal_lengths d' \<and> k \<le> length (timestamps d)
               \<and> timestamps d' = drop k (timestamps d @ [now])
               \<and> spot_prices d' = drop k (spot_prices d @ [sp])
               \<and> futures_prices d' = drop k (futures_prices d @ [fp])
               \<and> premiums d' = drop k (premiums d @ [(fp - sp) / sp * 100])
               \<and> funding_rates d' = drop k (funding_rates d @
                    [case funding_rate of
                       Some r \<Rightarrow> r * 100
                     | None \<Rightarrow> if funding_rates d \<noteq> [] then last (funding_rates d) else 0])
               \<and> open_interest d' = drop k (open_interest d @
                    [case oi of
                       Some v \<Rightarrow> v
                     | None \<Rightarrow> if open_interest d \<noteq> [] then last (open_interest d) else 0])"
    using h by (intro exI [of _ d'] exI [of _ res] exI [of _ k]) simp
qed

text \<open>
  Counterexample for C10 as stated: both prices are available, the spot price is zero, and
  the call raises instead of appending one element to each series.
\<close>

theorem update_data_zero_spot_counterexample:
  "update_data 1700000000000000 (Some 0) (Some 1) (Some 0.0001) (Some 5) initial_symbol_data
     = Inl ZeroDivisionError"
  by (simp add: update_data_def py_truediv_def)

text \<open>Witness for C10 (amended), on the initial record with no funding rate available.\<close>

theorem update_data_preserves_equal_lengths_witness:
  "equal_lengths initial_symbol_data
   \<and> (\<exists>d' res k. update_data 1700000000000000 (Some 100) (Some 101) None (Some 5)
                     initial_symbol_data = Inr (d', res)
         \<and> equal_lengths d' \<and> k \<le> length (timestamps initial_symbol_data)
         \<and> timestamps d' = drop k (timestamps initial_symbol_data @ [1700000000000000])
         \<and> funding_rates d' = drop k (funding_rates initial_symbol_data @ [0]))"
proof -
  have e: "equal_lengths initial_symbol_data"
    by (simp add: equal_lengths_def initial_symbol_data_def)
  have f: "funding_rates initial_symbol_data = []" by (simp add: initial_symbol_data_def)
  from update_data_preserves_equal_lengths [OF e, of "Some 100" "Some 101"
      1700000000000000 None "Some 5"]
  have "\<exists>d' res k. update_data 1700000000000000 (Some 100) (Some 101) None (Some 5)
                     initial_symbol_data = Inr (d', res)
         \<and> equal_lengths d' \<and> k \<le> length (timestamps initial_symbol_data)
         \<and> timestamps d' = drop k (timestamps initial_symbol_data @ [1700000000000000])
         \<and> funding_rates d' = drop k (funding_rates initial_symbol_data @ [0])"
    by (simp add: f) blast
  with e show ?thesis by simp
qed

text \<open>
  C5 (amended): for every funding rate \<open>r\<close> that a fetch returns, the value stored in the
  series \<open>funding_rates\<close> for that sample is the percentage \<open>r * 100\<close>, in \<open>update_data\<close> and
  in \<open>get_historical_funding_rates\<close> alike; the unscaled fraction \<open>r\<close> is kept in
  \<open>last_funding_rate\<close> and in the tuple that \<open>update_data\<close> returns.
\<close>

theorem funding_rate_stored_as_percentage:
  assumes "equal_lengths d" "sp \<noteq> 0"
  shows "(\<exists>d' res. update_data now (Some sp) (Some fp) (Some r) oi d = Inr (d', res)
            \<and> funding_rates d' \<noteq> [] \<and> last (funding_rates d') = r * 100
            \<and> last_funding_rate d' = Some r
            \<and> fst (snd (snd (snd res))) = Some r)
       \<and> get_historical_funding_rates (Some data)
           = (None, map (\<lambda>item. fst item * 1000) data, map (\<lambda>item. snd item * 100) data)"
proof -
  from update_data_lists [OF assms, of now fp "Some r" oi]
  obtain d' res k where u: "update_data now (Some sp) (Some fp) (Some r) oi d = Inr (d', res)"
    and k: "k \<le> length (timestamps d)"
    and f: "funding_rates d' = drop k (funding_rates d @ [r * 100])"
    and l: "last_funding_rate d' = Some r"
    and v: "fst (snd (snd (snd res))) = Some r"
    by auto
  have "length (funding_rates d) = length (timestamps d)"
    using assms(1) by (simp add: equal_lengths_def)
  with k have "k \<le> length (funding_rates d)" by simp
  then have "funding_rates d' = drop k (funding_rates d) @ [r * 100]"
    using f by simp
  then have "funding_rates d' \<noteq> [] \<and> last (funding_rates d') = r * 100" by simp
  with u l v have "\<exists>d' res. update_data now (Some sp) (Some fp) (Some r) oi d = Inr (d', res)
            \<and> funding_rates d' \<noteq> [] \<and> last (funding_rates d') = r * 100
            \<and> last_funding_rate d' = Some r
            \<and> fst (snd (snd (snd res))) = Some r"
    by blast
  then show ?thesis by (simp add: get_historical_funding_rates_def)
qed

text \<open>Witness for C5 (amended): a funding rate of 0.0001 on the initial record.\<close>

theorem funding_rate_stored_as_percentage_witness:
  "equal_lengths initial_symbol_data \<and> (100 :: rat) \<noteq> 0
   \<and> (\<exists>d' res. update_data 1700000000000000 (Some 100) (Some 101) (Some 0.0001) (Some 5)
                   initial_symbol_data = Inr (d', res)
         \<and> last (funding_rates d') = 0.0001 * 100 \<and> last_funding_rate d' = Some 0.0001)"
proof -
  have e: "equal_lengths initial_symbol_data"
    by (simp add: equal_lengths_def initial_symbol_data_def)
  have n: "(100 :: rat) \<noteq> 0" by simp
  from funding_rate_stored_as_percentage [OF e n, of 1700000000000000 101 "0.0001" "Some 5" "[]"]
  have "\<exists>d' res. update_data 1700000000000000 (Some 100) (Some 101) (Some 0.0001) (Some 5)
                   initial_symbol_data = Inr (d', res)
         \<and> last (funding_rates d') = 0.0001 * 100 \<and> last_funding_rate d' = Some 0.0001"
    by blast
  with e n show ?thesis by simp
qed

text \<open>
  Counterexample for C5 as stated: a fetched funding rate of 0.0001 is stored in the series
  as 0.01, by \<open>update_data\<close> and by \<open>get_historical_funding_rates\<close>.
\<close>

theorem funding_rate_stored_counterexample:
  "update_data 1700000000000000 (Some 100) (Some 101) (Some 0.0001) (Some 5) initial_symbol_data
     = Inr (\<lparr>timestamps = [1700000000000000], spot_prices = [100], futures_prices = [101],
             premiums = [1], funding_rates = [0.01], open_interest = [5],
             last_funding_rate = Some 0.0001\<rparr>,
            (Some 100, Some 101, Some 1, Some 0.0001, Some 5))
   \<and> (0.01 :: rat) \<noteq> 0.0001
   \<and> get_historical_funding_rates (Some [(1700000000000, 0.0001)])
       = (None, [1700000000000000], [0.01])"
  by (simp add: update_data_def py_truediv_def append_funding_rate_def append_open_interest_def
      evict_old_def initial_symbol_data_def get_historical_funding_rates_def)

section \<open>Parallel collection\<close>

lemma fetch_kline_symbol: "fetch_kline response s = Some r \<Longrightarrow> k_symbol r = s"
  by (auto simp: fetch_kline_def Let_def split: option.splits if_splits)

lemma mset_map_filter:
  "mset (List.map_filter f xs) = image_mset (the \<circ> f) (filter_mset (\<lambda>x. f x \<noteq> None) (mset xs))"
  by (simp add: List.map_filter_def)

lemma map_filter_nth:
  "List.map_filter (\<lambda>i. f (xs ! i)) [0..<length xs] = List.map_filter f xs"
proof -
  have "List.map_filter (\<lambda>i. f (xs ! i)) [0..<length xs]
      = List.map_filter f (map (\<lambda>i. xs ! i) [0..<length xs])"
    by (simp add: List.map_filter_def filter_map comp_def)
  then show ?thesis by (simp add: map_nth)
qed

lemma mset_get_klines_parallel:
  assumes "mset completed = mset [0..<length symbols]"
  shows "mset (get_klines_parallel response completed symbols)
         = mset (List.map_filter (fetch_kline response) symbols)"
proof -
  have "mset (get_klines_parallel response completed symbols)
      = mset (List.map_filter (\<lambda>i. fetch_kline response (symbols ! i)) [0..<length symbols])"
    unfolding get_klines_parallel_def mset_map_filter assms ..
  then show ?thesis by (simp add: map_filter_nth)
qed

lemma map_symbol_map_filter:
  "map k_symbol (List.map_filter (fetch_kline response) symbols)
     = filter (\<lambda>s. fetch_kline response s \<noteq> None) symbols"
  by (induction symbols) (auto simp: List.map_filter_simps fetch_kline_symbol split: option.splits)

lemma get_position_data_failed:
  "\<not> fetch_ok current historical s \<Longrightarrow>
   get_position_data current historical s
     = \<lparr>p_symbol = s, p_current_oi = 0, p_historical_oi = 0, p_change = 0,
        p_change_percentage = 0\<rparr>"
  by (auto simp: fetch_ok_def get_position_data_def split: option.splits)

lemma get_position_data_symbol: "p_symbol (get_position_data current historical s) = s"
  by (simp add: get_position_data_def Let_def split: option.splits list.splits)

text \<open>
  C6 (amended): for every list of symbols, every response of the exchange and every
  completion order, \<open>get_klines_parallel\<close> returns exactly one entry per symbol whose fetch
  succeeded and none for a symbol whose fetch failed, each entry being what the fetch of its
  own symbol returns; \<open>analyze_positions\<close> returns one entry per symbol, in submission
  order, and the entry of a symbol whose fetch failed is a record of zeros.
\<close>

theorem parallel_collection_results:
  assumes "mset completed = mset [0..<length symbols]"
  shows "mset (get_klines_parallel response completed symbols)
           = mset (List.map_filter (fetch_kline response) symbols)
       \<and> mset (map k_symbol (get_klines_parallel response completed symbols))
           = mset (filter (\<lambda>s. fetch_kline response s \<noteq> None) symbols)
       \<and> analyze_positions current historical symbols
           = map (get_position_data current historical) symbols
       \<and> map p_symbol (analyze_positions current historical symbols) = symbols
       \<and> (\<forall>s. \<not> fetch_ok current historical s \<longrightarrow>
            get_position_data current historical s
              = \<lparr>p_symbol = s, p_current_oi = 0, p_historical_oi = 0, p_change = 0,
                 p_change_percentage = 0\<rparr>)"
proof -
  have 1: "mset (get_klines_parallel response completed symbols)
           = mset (List.map_filter (fetch_kline response) symbols)"
    using assms by (rule mset_get_klines_parallel)
  have "mset (map k_symbol (get_klines_parallel response completed symbols))
      = image_mset k_symbol (mset (get_klines_parallel response completed symbols))"
    by simp
  also have "\<dots> = mset (map k_symbol (List.map_filter (fetch_kline response) symbols))"
    unfolding 1 by simp
  finally have 2: "mset (map k_symbol (get_klines_parallel response completed symbols))
           = mset (filter (\<lambda>s. fetch_kline response s \<noteq> None) symbols)"
    by (simp add: map_symbol_map_filter)
  have 3: "analyze_positions current historical symbols
           = map (get_position_data current historical) symbols"
    by (simp add: analyze_positions_def)
  have 4: "map p_symbol (analyze_positions current historical symbols) = symbols"
    by (simp add: analyze_positions_def get_position_data_symbol comp_def)
  show ?thesis using 1 2 3 4 get_position_data_failed by (intro conjI allI impI)
qed

text \<open>
  Counterexample for C6 as stated: the only symbol's fetch fails, and \<open>analyze_positions\<close>
  returns one zero-filled entry for it.
\<close>

theorem analyze_positions_failed_counterexample:
  "\<not> fetch_ok (\<lambda>s. None) (\<lambda>s. None) ''BTCUSDT''
   \<and> analyze_positions (\<lambda>s. None) (\<lambda>s. None) [''BTCUSDT'']
     = [\<lparr>p_symbol = ''BTCUSDT'', p_current_oi = 0, p_historical_oi = 0, p_change = 0,
         p_change_percentage = 0\<rparr>]"
  by (simp add: analyze_positions_def get_position_data_def fetch_ok_def)

text \<open>
  Witness for C6 (amended): three symbols that complete out of order, the second of which
  fails.
\<close>

theorem parallel_collection_results_witness:
  "mset [1, 0, 2] = mset [0..<length [''AUSDT'', ''BUSDT'', ''CUSDT'']]
   \<and> mset (map k_symbol (get_klines_parallel
        (\<lambda>s. if s = ''BUSDT'' then None else Some [[0,1,2,3,4,5,6,7,8,9,10,11], [0,1,2,3,4,5,6,7,8,9,10,11]])
        [1, 0, 2] [''AUSDT'', ''BUSDT'', ''CUSDT'']))
     = mset [''AUSDT'', ''CUSDT'']"
proof -
  let ?resp = "\<lambda>s. if s = ''BUSDT'' then None
                    else Some [[0,1,2,3,4,5,6,7,8,9,10,11::rat], [0,1,2,3,4,5,6,7,8,9,10,11]]"
  have h: "mset [1, 0, 2] = mset [0..<length [''AUSDT'', ''BUSDT'', ''CUSDT'']]"
    by (simp add: upt_rec)
  have f: "filter (\<lambda>s. fetch_kline ?resp s \<noteq> None) [''AUSDT'', ''BUSDT'', ''CUSDT'']
           = [''AUSDT'', ''CUSDT'']"
    by (simp add: fetch_kline_def)
  have "mset (map k_symbol (get_klines_parallel ?resp [1, 0, 2] [''AUSDT'', ''BUSDT'', ''CUSDT'']))
      = mset (filter (\<lambda>s. fetch_kline ?resp s \<noteq> None) [''AUSDT'', ''BUSDT'', ''CUSDT''])"
    using parallel_collection_results [OF h, of ?resp] by (rule conjunct1 [OF conjunct2])
  then show ?thesis using h unfolding f by (intro conjI)
qed

section \<open>Saving the statistics\<close>

lemma prefix_concat_take: "prefix (concat (take k chunks)) (concat chunks)"
proof -
  have "concat chunks = concat (take k chunks) @ concat (drop k chunks)"
    by (metis append_take_drop_id concat_append)
  then show ?thesis by (metis prefixI)
qed

lemma set_save_states:
  "c \<in> set (save_states old chunks) \<Longrightarrow> c = old \<or> (\<exists>k. c = concat (take k chunks))"
  by (auto simp: save_states_def simp del: upt_Suc)

lemma last_save_states: "last (save_states old chunks) = concat chunks"
  by (simp add: save_states_def)

lemma save_states_truncated: "save_states old chunks ! 1 = []"
  by (simp add: save_states_def upt_conv_Cons del: upt_Suc)

text \<open>
  C7 (amended): saving overwrites the data file in place.  The file first holds the old
  snapshot, is empty once it has been opened for writing, and then holds a growing prefix
  of the new snapshot's text; a save that runs to its end leaves the complete new
  snapshot, and one that is interrupted leaves the old snapshot or a prefix of the new one.
\<close>

theorem save_overwrites_in_place:
  "(\<forall>c \<in> set (save_states old chunks). c = old \<or> prefix c (concat chunks))
   \<and> save_states old chunks ! 0 = old
   \<and> save_states old chunks ! 1 = []
   \<and> last (save_states old chunks) = concat chunks"
proof (intro conjI ballI)
  fix c assume "c \<in> set (save_states old chunks)"
  from set_save_states [OF this] show "c = old \<or> prefix c (concat chunks)"
    using prefix_concat_take by auto
next
  show "save_states old chunks ! 0 = old" by (simp add: save_states_def)
next
  show "save_states old chunks ! 1 = []" by (rule save_states_truncated)
next
  show "last (save_states old chunks) = concat chunks" by (rule last_save_states)
qed

text \<open>
  Counterexample for C7 as stated: during the save the file is empty, and then holds the
  first chunk only; neither is the complete old or the complete new snapshot.
\<close>

theorem save_interrupted_counterexample:
  \<open>save_states ''{"previous_rates": {"BTCUSDT": 0.0001}}''
      [''{"previous_rates": '', ''{"BTCUSDT": 0.0002}}'']
     = [''{"previous_rates": {"BTCUSDT": 0.0001}}'',
        '''',
        ''{"previous_rates": '',
        ''{"previous_rates": {"BTCUSDT": 0.0002}}'']
   \<and> '''' \<noteq> ''{"previous_rates": {"BTCUSDT": 0.0001}}''
   \<and> '''' \<noteq> ''{"previous_rates": {"BTCUSDT": 0.0002}}''
   \<and> ''{"previous_rates": '' \<noteq> ''{"previous_rates": {"BTCUSDT": 0.0001}}''
   \<and> ''{"previous_rates": '' \<noteq> ''{"previous_rates": {"BTCUSDT": 0.0002}}''\<close>
  by (simp add: save_states_def upt_rec)

text \<open>Witness for C7 (amended): a text written in two chunks.\<close>

theorem save_overwrites_in_place_witness:
  "''ne'' \<in> set (save_states ''old'' [''ne'', ''w''])
   \<and> (''ne'' = ''old'' \<or> prefix ''ne'' (concat [''ne'', ''w'']))
   \<and> last (save_states ''old'' [''ne'', ''w'']) = ''new''"
proof -
  have m: "''ne'' \<in> set (save_states ''old'' [''ne'', ''w''])"
    by (simp add: save_states_def upt_rec)
  note t = save_overwrites_in_place [of "''old''" "[''ne'', ''w'']"]
  from conjunct1 [OF t] m
  have "''ne'' = ''old'' \<or> prefix ''ne'' (concat [''ne'', ''w''])" by (rule bspec)
  moreover from conjunct2 [OF conjunct2 [OF conjunct2 [OF t]]]
  have "last (save_states ''old'' [''ne'', ''w'']) = ''new''" by simp
  ultimately show ?thesis using m by (intro conjI)
qed

text \<open>
  C9 (amended): when the fetch returns no rates, \<open>run_task\<close> leaves \<open>previous_rates\<close> and
  the data file unchanged.  When it returns rates, the in-memory \<open>previous_rates\<close> becomes
  the just-fetched mapping, the statistics carry that mapping as \<open>previous_rates\<close> and the
  changes computed against the prior baseline (none when there is no baseline), and the
  data file holds these statistics if the write succeeds; if the write raises, the file is
  left as the failure left it.
\<close>

theorem run_task_previous_rates:
  "(get_funding_rates response = [] \<longrightarrow>
      previous_rates (fst (fst (run_task response now outcome (self, file)))) = previous_rates self
      \<and> snd (fst (run_task response now outcome (self, file))) = file
      \<and> snd (run_task response now outcome (self, file)) = None)
   \<and> (get_funding_rates response \<noteq> [] \<longrightarrow>
      previous_rates (fst (fst (run_task response now outcome (self, file))))
        = get_funding_rates response
      \<and> (\<exists>stats. snd (run_task response now outcome (self, file)) = Some stats
            \<and> s_previous_rates stats = get_funding_rates response
            \<and> s_biggest_increases stats
                = (if previous_rates self \<noteq> []
                   then get_biggest_changes (get_funding_rates response) (previous_rates self) 5 True
                   else [])
            \<and> s_biggest_decreases stats
                = (if previous_rates self \<noteq> []
                   then get_biggest_changes (get_funding_rates response) (previous_rates self) 5 False
                   else [])
            \<and> snd (fst (run_task response now outcome (self, file)))
                = (case outcome of Written \<Rightarrow> Some stats | WriteFailed left \<Rightarrow> left)))"
  by (simp add: run_task_def Let_def)

text \<open>
  Counterexample for C9 as stated: the fetch succeeds and the write fails with no file on
  disk; the in-memory \<open>previous_rates\<close> is the fetched mapping, the persisted one is absent.
\<close>

theorem run_task_write_failed_counterexample:
  "get_funding_rates (Some [(''BTCUSDT'', 0.0002)]) = [(''BTCUSDT'', 0.0002)]
   \<and> previous_rates (fst (fst (run_task (Some [(''BTCUSDT'', 0.0002)]) ''2025-01-01 00:05:00''
         (WriteFailed None) (tracker_init None, None)))) = [(''BTCUSDT'', 0.0002)]
   \<and> snd (fst (run_task (Some [(''BTCUSDT'', 0.0002)]) ''2025-01-01 00:05:00''
         (WriteFailed None) (tracker_init None, None))) = None"
  by (simp add: run_task_def get_funding_rates_def tracker_init_def suffix_to_prefix Let_def)

text \<open>
  Witness for C9 (amended): a response with one USDT symbol, and a failed request.
\<close>

theorem run_task_previous_rates_witness:
  "get_funding_rates (Some [(''BTCUSDT'', 0.0002), (''BTCUSD_PERP'', 0.0003)]) \<noteq> []
   \<and> get_funding_rates None = []
   \<and> previous_rates (fst (fst (run_task (Some [(''BTCUSDT'', 0.0002), (''BTCUSD_PERP'', 0.0003)])
         ''2025-01-01 00:05:00'' Written (tracker_init None, None))))
       = [(''BTCUSDT'', 0.0002)]
   \<and> snd (fst (run_task None ''2025-01-01 00:05:00'' Written (tracker_init None, None))) = None"
proof -
  let ?resp = "Some [(''BTCUSDT'', 0.0002 :: rat), (''BTCUSD_PERP'', 0.0003)]"
  have g: "get_funding_rates ?resp = [(''BTCUSDT'', 0.0002)]"
    by (simp add: get_funding_rates_def suffix_to_prefix)
  have n: "get_funding_rates None = []" by (simp add: get_funding_rates_def)
  have 1: "previous_rates (fst (fst (run_task ?resp ''2025-01-01 00:05:00'' Written
             (tracker_init None, None)))) = [(''BTCUSDT'', 0.0002)]"
    using run_task_previous_rates [of ?resp "''2025-01-01 00:05:00''" Written
        "tracker_init None" None] g by simp
  have 2: "snd (fst (run_task None ''2025-01-01 00:05:00'' Written (tracker_init None, None)))
             = None"
    using run_task_previous_rates [of None "''2025-01-01 00:05:00''" Written
        "tracker_init None" None] n by simp
  show ?thesis using g n 1 2 by simp
qed

section \<open>The rate limiter\<close>

lemma evict_expired_suffix: "\<exists>p. q = p @ evict_expired ct w q"
proof (induction q)
  case Nil
  then show ?case by simp
next
  case (Cons r q)
  then obtain p where p: "q = p @ evict_expired ct w q" by blast
  show ?case
  proof (cases "ct - r > w")
    case True
    from p have "r # q = (r # p) @ evict_expired ct w q" by simp
    with True have "r # q = (r # p) @ evict_expired ct w (r # q)" by simp
    then show ?thesis by (rule exI)
  next
    case False
    then have "r # q = [] @ evict_expired ct w (r # q)" by simp
    then show ?thesis by (rule exI)
  qed
qed

lemma evict_expired_head: "evict_expired ct w q = r # rest \<Longrightarrow> ct - r \<le> w"
  by (induction q) (auto split: if_splits)

lemma acquire_cases:
  assumes "acquire ct self = Inr (self', slept)"
  shows "self' = self\<lparr>requests := evict_expired ct (time_window self) (requests self) @ [ct]\<rparr>
       \<and> 0 \<le> slept
       \<and> (int (length (evict_expired ct (time_window self) (requests self))) \<ge> max_requests self
            \<longrightarrow> (\<exists>oldest rest. evict_expired ct (time_window self) (requests self) = oldest # rest
                   \<and> oldest + time_window self - ct \<le> slept))"
  using assms by (auto simp: acquire_def Let_def split: if_splits list.splits)

text \<open>
  Away from that boundary the limiter keeps its bound: if at most \<open>max_requests\<close> recorded
  timestamps are at most \<open>time_window\<close> old at time \<open>t\<close>, and \<open>acquire\<close> is entered at a
  clock reading not before \<open>t\<close> and returns at a time \<open>t'\<close> strictly after that reading plus
  the time slept, the same holds at \<open>t'\<close>.
\<close>

lemma acquire_keeps_limit:
  assumes inv: "limiter_inv t self"
    and le: "t \<le> ct"
    and acq: "acquire ct self = Inr (self', slept)"
    and later: "ct + slept < t'"
  shows "limiter_inv t' self'"
proof -
  let ?w = "time_window self"
  let ?q = "evict_expired ct ?w (requests self)"
  from acquire_cases [OF acq] have self': "self' = self\<lparr>requests := ?q @ [ct]\<rparr>"
    and slept: "0 \<le> slept"
    and full: "int (length ?q) \<ge> max_requests self \<Longrightarrow>
                 \<exists>oldest rest. ?q = oldest # rest \<and> oldest + ?w - ct \<le> slept"
    by blast+
  obtain p where p: "requests self = p @ ?q" using evict_expired_suffix by blast
  from inv have srt: "sorted (p @ ?q)" and bound: "\<forall>r \<in> set (p @ ?q). r \<le> t"
    and cnt: "int (length (filter (\<lambda>r. t - r \<le> ?w) (p @ ?q))) \<le> max_requests self"
    unfolding limiter_inv_def p [symmetric] by simp_all
  have sq: "sorted ?q" using srt by (simp add: sorted_append)
  have recent: "ct - r \<le> ?w" if "r \<in> set ?q" for r
  proof (cases ?q)
    case Nil
    with that show ?thesis by simp
  next
    case (Cons r0 rest)
    from evict_expired_head [OF Cons] have "ct - r0 \<le> ?w" .
    moreover from sq that Cons have "r0 \<le> r" by auto
    ultimately show ?thesis by simp
  qed
  have "filter (\<lambda>r. t - r \<le> ?w) ?q = ?q"
  proof -
    have "\<forall>r \<in> set ?q. t - r \<le> ?w" using recent le by fastforce
    then show ?thesis by (simp add: filter_id_conv)
  qed
  then have "length ?q \<le> length (filter (\<lambda>r. t - r \<le> ?w) (p @ ?q))" by simp
  with cnt have lenq: "int (length ?q) \<le> max_requests self" by linarith
  have "\<forall>r \<in> set ?q. r \<le> ct"
  proof
    fix r assume "r \<in> set ?q"
    then have "r \<le> t" using bound by simp
    with le show "r \<le> ct" by simp
  qed
  then have sorted': "sorted (?q @ [ct])"
    using sq by (simp add: sorted_append)
  have bound': "\<forall>r \<in> set (?q @ [ct]). r \<le> t'"
  proof
    fix r assume "r \<in> set (?q @ [ct])"
    then have "r \<le> ct" using \<open>\<forall>r \<in> set ?q. r \<le> ct\<close> by auto
    with slept later show "r \<le> t'" by linarith
  qed
  have cnt': "int (length (filter (\<lambda>r. t' - r \<le> ?w) (?q @ [ct]))) \<le> max_requests self"
  proof (cases "int (length ?q) \<ge> max_requests self")
    case True
    from full [OF True] obtain oldest rest where q: "?q = oldest # rest"
      and s: "oldest + ?w - ct \<le> slept" by blast
    from s later have "\<not> t' - oldest \<le> ?w" by linarith
    then have "filter (\<lambda>r. t' - r \<le> ?w) (?q @ [ct])
        = filter (\<lambda>r. t' - r \<le> ?w) (rest @ [ct])"
      unfolding q by simp
    then have "length (filter (\<lambda>r. t' - r \<le> ?w) (?q @ [ct])) \<le> length (rest @ [ct])"
      using length_filter_le [of "\<lambda>r. t' - r \<le> ?w" "rest @ [ct]"] by simp
    then have "length (filter (\<lambda>r. t' - r \<le> ?w) (?q @ [ct])) \<le> length rest + 1"
      by simp
    also have "\<dots> = length ?q" unfolding q by simp
    finally show ?thesis using lenq by linarith
  next
    case False
    have "length (filter (\<lambda>r. t' - r \<le> ?w) (?q @ [ct])) \<le> length ?q + 1"
      using length_filter_le [of "\<lambda>r. t' - r \<le> ?w" "?q @ [ct]"] by simp
    with False show ?thesis by linarith
  qed
  show ?thesis
    unfolding limiter_inv_def self' using sorted' bound' cnt' by simp
qed

lemma in_window_le_limit:
  "limiter_inv t self \<Longrightarrow> int (length (in_window t self)) \<le> max_requests self"
proof -
  assume inv: "limiter_inv t self"
  have "set (in_window t self) \<subseteq> set (filter (\<lambda>r. t - r \<le> time_window self) (requests self))"
    by (auto simp: in_window_def)
  have "length (in_window t self)
        \<le> length (filter (\<lambda>r. t - r \<le> time_window self) (requests self))"
  proof -
    have "in_window t self
        = filter (\<lambda>r. t - r < time_window self)
            (filter (\<lambda>r. t - r \<le> time_window self) (requests self))"
      by (auto simp: in_window_def intro: filter_cong)
    then show ?thesis using length_filter_le by metis
  qed
  with inv show ?thesis unfolding limiter_inv_def by linarith
qed

text \<open>
  C8, at the input where the code departs from it: the limiter as the analyzer configures
  it, five requests per second.  Six calls of \<open>acquire\<close> at clock reading 0 (the sixth
  sleeps one second) and six more at clock reading 1: none of the later six sleeps, since
  the oldest timestamp is exactly one second old, and on return six recorded timestamps
  are less than one second old.
\<close>

theorem acquire_boundary_lets_requests_through:
  "acquire_all [0, 0, 0, 0, 0, 0, 1, 1, 1, 1, 1, 1]
       \<lparr>max_requests = 5, time_window = 1, requests = []\<rparr>
     = Inr (\<lparr>max_requests = 5, time_window = 1,
             requests = [0, 0, 0, 0, 0, 0, 1, 1, 1, 1, 1, 1]\<rparr>,
            [0, 0, 0, 0, 0, 1, 0, 0, 0, 0, 0, 0])
   \<and> in_window 1 \<lparr>max_requests = 5, time_window = 1,
                   requests = [0, 0, 0, 0, 0, 0, 1, 1, 1, 1, 1, 1]\<rparr>
     = [1, 1, 1, 1, 1, 1]
   \<and> max_requests \<lparr>max_requests = 5, time_window = 1,
                     requests = [0, 0, 0, 0, 0, 0, 1, 1, 1, 1, 1, 1]\<rparr>
     < int (length (in_window 1 \<lparr>max_requests = 5, time_window = 1,
                     requests = [0, 0, 0, 0, 0, 0, 1, 1, 1, 1, 1, 1]\<rparr>))"
  by (simp add: acquire_def in_window_def)

end
